theory Spec2Isabelle
  imports Complex_Main "HOL-Library.Word"
begin

unbundle bit_operations_syntax

section \<open>JavaScript values used by script.js\<close>

text \<open>
  A JavaScript number is modelled as a real number or \<open>NaN\<close>. Rounding and overflow of
  IEEE doubles are not modelled; \<open>NaN\<close> is, because a field that is missing from the
  input record reads as \<open>undefined\<close>, and \<open>undefined\<close> turns into \<open>NaN\<close> in arithmetic
  and makes every comparison false.
\<close>

datatype jsnum = Num real | NaN

instantiation jsnum :: "{plus, minus, times}"
begin

fun plus_jsnum :: "jsnum \<Rightarrow> jsnum \<Rightarrow> jsnum" where
  "plus_jsnum (Num a) (Num b) = Num (a + b)"
| "plus_jsnum _ _ = NaN"

fun minus_jsnum :: "jsnum \<Rightarrow> jsnum \<Rightarrow> jsnum" where
  "minus_jsnum (Num a) (Num b) = Num (a - b)"
| "minus_jsnum _ _ = NaN"

fun times_jsnum :: "jsnum \<Rightarrow> jsnum \<Rightarrow> jsnum" where
  "times_jsnum (Num a) (Num b) = Num (a * b)"
| "times_jsnum _ _ = NaN"

instance ..

end

text \<open>Division; the only divisor in the source is the literal 2, so the infinities of
  a division by zero are not needed and \<open>NaN\<close> stands for them.\<close>

fun js_div :: "jsnum \<Rightarrow> jsnum \<Rightarrow> jsnum" where
  "js_div (Num a) (Num b) = (if b = 0 then NaN else Num (a / b))"
| "js_div _ _ = NaN"

text \<open>The comparisons \<open><\<close> and \<open>>\<close>: false as soon as one side is \<open>NaN\<close>.\<close>

fun js_lt :: "jsnum \<Rightarrow> jsnum \<Rightarrow> bool" where
  "js_lt (Num a) (Num b) = (a < b)"
| "js_lt _ _ = False"

fun js_gt :: "jsnum \<Rightarrow> jsnum \<Rightarrow> bool" where
  "js_gt (Num a) (Num b) = (a > b)"
| "js_gt _ _ = False"

text \<open>Reading a numeric field of the parsed JSON record: a missing field is
  \<open>undefined\<close>, which arithmetic and comparisons convert to \<open>NaN\<close>.\<close>

fun to_number :: "real option \<Rightarrow> jsnum" where
  "to_number None = NaN"
| "to_number (Some v) = Num v"

text \<open>String concatenation converts \<open>undefined\<close> to the text "undefined".\<close>

fun to_string :: "string option \<Rightarrow> string" where
  "to_string None = ''undefined''"
| "to_string (Some s) = s"

text \<open>Array indexing \<open>arr[i]\<close>: \<open>undefined\<close> (here \<open>None\<close>) outside the array.\<close>

definition js_index :: "'a list \<Rightarrow> int \<Rightarrow> 'a option" where
  "js_index arr i = (if 0 \<le> i \<and> nat i < length arr then Some (arr ! nat i) else None)"

datatype error = TypeError

section \<open>Pools and helpers\<close>

definition POOL_dark :: "string list" where
  "POOL_dark = [''#2C3E50'', ''#1A1A2E'', ''#4A148C'', ''#1B4F72'', ''#641E16'', ''#145A32'',
                ''#212F3C'', ''#512E5F'']"

definition POOL_vibrant :: "string list" where
  "POOL_vibrant = [''#FF5733'', ''#C70039'', ''#FFC300'', ''#900C3F'', ''#2ECC71'', ''#E74C3C'',
                   ''#8E44AD'', ''#D35400'', ''#F39C12'', ''#1ABC9C'']"

definition POOL_light :: "string list" where
  "POOL_light = [''#FDFEFE'', ''#F4ECF7'', ''#FEF9E7'', ''#D5F5E3'', ''#FAD7A0'', ''#E8F8F5'',
                 ''#D2B4DE'', ''#A9DFBF'']"

subsection \<open>\<open>parseInt(s, 16)\<close>\<close>

definition hex_digit :: "char \<Rightarrow> int option" where
  "hex_digit c =
     (let n = (of_char c :: nat) in
      if 48 \<le> n \<and> n \<le> 57 then Some (int n - 48)
      else if 97 \<le> n \<and> n \<le> 102 then Some (int n - 87)
      else if 65 \<le> n \<and> n \<le> 70 then Some (int n - 55)
      else None)"

definition is_space :: "char \<Rightarrow> bool" where
  "is_space c = ((of_char c :: nat) \<in> {9, 10, 11, 12, 13, 32})"

text \<open>The value of the longest prefix of hexadecimal digits, with the number of digits read.\<close>

fun hex_prefix :: "int \<Rightarrow> nat \<Rightarrow> string \<Rightarrow> int \<times> nat" where
  "hex_prefix acc k [] = (acc, k)"
| "hex_prefix acc k (c # cs) =
     (case hex_digit c of
        None \<Rightarrow> (acc, k)
      | Some d \<Rightarrow> hex_prefix (16 * acc + d) (Suc k) cs)"

text \<open>\<open>parseInt(s, 16)\<close>: leading white space is skipped, then an optional sign and an
  optional \<open>0x\<close> prefix; without any digit the result is \<open>NaN\<close> (here \<open>None\<close>).\<close>

definition parseInt16 :: "string \<Rightarrow> int option" where
  "parseInt16 s =
     (let s1 = dropWhile is_space s;
          sign = (if take 1 s1 = ''-'' then - 1 else 1 :: int);
          s2 = (if take 1 s1 = ''-'' \<or> take 1 s1 = ''+'' then drop 1 s1 else s1);
          s3 = (if take 2 s2 = ''0x'' \<or> take 2 s2 = ''0X'' then drop 2 s2 else s2)
      in case hex_prefix 0 0 s3 of
           (v, k) \<Rightarrow> if k = 0 then None else Some (sign * v))"

text \<open>\<open>ToInt32\<close>, applied by \<open>>>\<close> and \<open>&\<close> to their operands: \<open>NaN\<close> becomes 0.\<close>

fun ToInt32 :: "int option \<Rightarrow> 32 word" where
  "ToInt32 None = 0"
| "ToInt32 (Some n) = word_of_int n"

type_synonym rgb = "int \<times> int \<times> int"

text \<open>\<open>hex.replace("#", "")\<close> removes the first \<open>#\<close> only.\<close>

definition hexToRgb :: "string \<Rightarrow> rgb" where
  "hexToRgb hex =
     (let bigint = ToInt32 (parseInt16 (remove1 (CHR ''#'') hex))
      in (sint (signed_drop_bit 16 bigint AND 255),
          sint (signed_drop_bit 8 bigint AND 255),
          sint (bigint AND 255)))"

section \<open>The libraries the page loads\<close>

text \<open>
  \<open>Math.seedrandom\<close> and \<open>SimplexNoise\<close> are third-party libraries, and the date label is
  formatted by the browser; they are parameters of the model.
  \<^item> \<open>seedrandom L seed n\<close> is the \<open>n\<close>-th number returned by the generator that
    \<open>new Math.seedrandom(seed)\<close> creates.
  \<^item> \<open>SimplexNoise L ds\<close> is what the constructor \<open>new SimplexNoise(rng)\<close> yields when the
    generator it is given would return \<open>ds 0, ds 1, ...\<close>: the function \<open>noise2D\<close> of
    the field, and how many numbers the constructor drew.
  \<^item> \<open>toLocaleDateString L t\<close> is the text that
    \<open>new Date(t).toLocaleDateString('en-US', ...)\<close> returns in the browser's time zone
    (\<open>t\<close> is \<open>None\<close> when the record has no time stamp).
\<close>

record host =
  seedrandom :: "string \<Rightarrow> nat \<Rightarrow> real"
  SimplexNoise :: "(nat \<Rightarrow> real) \<Rightarrow> (jsnum \<Rightarrow> jsnum \<Rightarrow> jsnum) \<times> nat"
  toLocaleDateString :: "string option \<Rightarrow> string"

text \<open>A generator object: its sequence and how many numbers have been drawn from it.\<close>

record rng =
  draws :: "nat \<Rightarrow> real"
  used :: nat

definition new_seedrandom :: "host \<Rightarrow> string \<Rightarrow> rng" where
  "new_seedrandom L seed = \<lparr>draws = seedrandom L seed, used = 0\<rparr>"

definition rng_call :: "rng \<Rightarrow> real \<times> rng" where
  "rng_call g = (draws g (used g), g\<lparr>used := used g + 1\<rparr>)"

definition new_SimplexNoise :: "host \<Rightarrow> rng \<Rightarrow> (jsnum \<Rightarrow> jsnum \<Rightarrow> jsnum) \<times> rng" where
  "new_SimplexNoise L g =
     (case SimplexNoise L (\<lambda>i. draws g (used g + i)) of
        (noise2D, k) \<Rightarrow> (noise2D, g\<lparr>used := used g + k\<rparr>))"

section \<open>Color drafting\<close>

definition pickFrom :: "string list \<Rightarrow> rng \<Rightarrow> string option \<times> rng" where
  "pickFrom arr g =
     (case rng_call g of (r, g') \<Rightarrow> (js_index arr \<lfloor>r * real (length arr)\<rfloor>, g'))"

text \<open>\<open>selected.push(pickFrom(pool))\<close> on the pair of \<open>selected\<close> and the generator.\<close>

definition push_pick :: "string list \<Rightarrow> string option list \<times> rng \<Rightarrow> string option list \<times> rng" where
  "push_pick pool st =
     (case pickFrom pool (snd st) of (c, g') \<Rightarrow> (fst st @ [c], g'))"

text \<open>\<open>selected.map(hexToRgb)\<close>: \<open>hexToRgb(undefined)\<close> throws a TypeError at
  \<open>hex.replace\<close>, which aborts the map.\<close>

fun map_hexToRgb :: "string option list \<Rightarrow> error + rgb list" where
  "map_hexToRgb [] = Inr []"
| "map_hexToRgb (None # hs) = Inl TypeError"
| "map_hexToRgb (Some h # hs) =
     (case map_hexToRgb hs of Inl e \<Rightarrow> Inl e | Inr cs \<Rightarrow> Inr (hexToRgb h # cs))"

definition draftColors :: "host \<Rightarrow> jsnum \<Rightarrow> jsnum \<Rightarrow> jsnum \<Rightarrow> string \<Rightarrow> error + rgb list" where
  "draftColors L season sentiment entropy seedStr =
     (let st0 = ([], new_seedrandom L (seedStr @ ''_COLOR_DRAFT''));
          st1 = (if js_gt season (Num 0.6) then push_pick POOL_dark st0
                 else push_pick POOL_light st0);
          st2 = push_pick POOL_vibrant st1;
          st3 = (if js_gt season (Num 0.6) then push_pick POOL_light st2
                 else push_pick POOL_dark st2);
          st4 = (if js_gt entropy (Num 0.5)
                 then push_pick POOL_vibrant (push_pick POOL_vibrant st3)
                 else push_pick POOL_dark (push_pick POOL_light st3))
      in map_hexToRgb (fst st4))"


section \<open>Art logic\<close>

definition CANVAS_WIDTH :: nat where
  "CANVAS_WIDTH = 1240"

definition CANVAS_HEIGHT :: nat where
  "CANVAS_HEIGHT = 1754"

definition CHUNK_SIZE :: nat where
  "CHUNK_SIZE = 150"

text \<open>The record parsed from \<open>world_data.json\<close>; a field may be missing.\<close>

record WorldData =
  timestamp :: "string option"
  p_season :: "real option"
  p_sentiment :: "real option"
  p_entropy :: "real option"
  p_humanity :: "real option"
  p_atmosphere :: "real option"

text \<open>What the page shows and keeps between two generations.\<close>

record page =
  canvas :: "nat list"
  timestampDisplay :: string
  lastGeneratedImageData :: "nat list option"

definition toUpperCase :: "string \<Rightarrow> string" where
  "toUpperCase s =
     map (\<lambda>c. let n = (of_char c :: nat) in
                if 97 \<le> n \<and> n \<le> 122 then char_of (n - 32) else c) s"

subsection \<open>Run parameters\<close>

definition zoom_of :: "WorldData \<Rightarrow> jsnum" where
  "zoom_of data = Num 0.002 + to_number (p_humanity data) * Num 0.002"

definition distortion_of :: "WorldData \<Rightarrow> jsnum" where
  "distortion_of data = Num 100 + to_number (p_entropy data) * Num 200"

definition grainAmount_of :: "WorldData \<Rightarrow> jsnum" where
  "grainAmount_of data = Num 0.1 + to_number (p_atmosphere data) * Num 0.1"

definition grain_of :: "WorldData \<Rightarrow> real \<Rightarrow> jsnum" where
  "grain_of data draw = (Num draw - Num 0.5) * grainAmount_of data"

subsection \<open>One pixel\<close>

definition warped_value ::
  "(jsnum \<Rightarrow> jsnum \<Rightarrow> jsnum) \<Rightarrow> jsnum \<Rightarrow> jsnum \<Rightarrow> nat \<Rightarrow> nat \<Rightarrow> jsnum" where
  "warped_value noise2D zoom distortion x y =
     (let xWarp = noise2D (Num (real x) * zoom) (Num (real y) * zoom);
          yWarp = noise2D ((Num (real x) + Num 1000) * zoom) ((Num (real y) + Num 1000) * zoom);
          finalX = Num (real x) + xWarp * distortion;
          finalY = Num (real y) + yWarp * distortion
      in js_div (noise2D (finalX * zoom) (finalY * zoom) + Num 1) (Num 2))"

definition quantize :: "jsnum \<Rightarrow> int" where
  "quantize ditheredValue =
     (if js_lt ditheredValue (Num 0.30) then 0
      else if js_lt ditheredValue (Num 0.50) then 1
      else if js_lt ditheredValue (Num 0.70) then 2
      else if js_lt ditheredValue (Num 0.85) then 3
      else 4)"

definition clamp_index :: "int \<Rightarrow> int" where
  "clamp_index colIndex =
     (let c = (if colIndex < 0 then 0 else colIndex)
      in if c > 4 then 4 else c)"

text \<open>The constants of the pixel loop.\<close>

record frame =
  noise2D :: "jsnum \<Rightarrow> jsnum \<Rightarrow> jsnum"
  colors :: "rgb list"
  data :: WorldData
  zoom :: jsnum
  distortion :: jsnum
  width :: nat
  height :: nat

text \<open>The three channels of the pixel before they are stored; \<open>colors[colIndex]\<close> outside
  the palette would be \<open>undefined\<close>, and \<open>rgb[0]\<close> would throw.\<close>

definition pixel_rgb :: "frame \<Rightarrow> nat \<Rightarrow> nat \<Rightarrow> real \<Rightarrow> error + jsnum \<times> jsnum \<times> jsnum" where
  "pixel_rgb F x y draw =
     (let tone = warped_value (noise2D F) (zoom F) (distortion F) x y;
          grain = grain_of (data F) draw;
          ditheredValue = tone + grain;
          colIndex = clamp_index (quantize ditheredValue)
      in case js_index (colors F) colIndex of
           None \<Rightarrow> Inl TypeError
         | Some (r0, g0, b0) \<Rightarrow>
             Inr (Num (real_of_int r0) + grain * Num 30,
                  Num (real_of_int g0) + grain * Num 30,
                  Num (real_of_int b0) + grain * Num 30))"

text \<open>
  \<open>ctx.createImageData\<close> returns an \<open>ImageData\<close> whose \<open>data\<close> is a zero-filled
  \<open>Uint8ClampedArray\<close>. Storing a number in it applies \<open>ToUint8Clamp\<close>: \<open>NaN\<close> is 0, the
  value is clamped to 0..255 and rounded to the nearest integer, a tie to the even one.
\<close>

definition ToUint8Clamp :: "jsnum \<Rightarrow> nat" where
  "ToUint8Clamp n =
     (case n of
        NaN \<Rightarrow> 0
      | Num v \<Rightarrow>
          if v \<le> 0 then 0
          else if 255 \<le> v then 255
          else (let f = \<lfloor>v\<rfloor> in
                if of_int f + 1 / 2 < v then nat (f + 1)
                else if v < of_int f + 1 / 2 then nat f
                else if even f then nat f else nat (f + 1)))"

definition createImageData :: "nat \<Rightarrow> nat \<Rightarrow> nat list" where
  "createImageData w h = replicate (w * h * 4) 0"

record render =
  pixels :: "nat list"
  myRNG :: rng

definition render_pixel :: "frame \<Rightarrow> nat \<Rightarrow> nat \<Rightarrow> render \<Rightarrow> error + render" where
  "render_pixel F x y st =
     (case rng_call (myRNG st) of
        (draw, g') \<Rightarrow>
          (case pixel_rgb F x y draw of
             Inl e \<Rightarrow> Inl e
           | Inr (r, g, b) \<Rightarrow>
               (let index = (y * width F + x) * 4
                in Inr \<lparr>pixels = (pixels st)
                            [index := ToUint8Clamp r,
                             index + 1 := ToUint8Clamp g,
                             index + 2 := ToUint8Clamp b,
                             index + 3 := ToUint8Clamp (Num 255)],
                         myRNG = g'\<rparr>)))"

subsection \<open>The loops\<close>

function row_loop :: "frame \<Rightarrow> nat \<Rightarrow> nat \<Rightarrow> render \<Rightarrow> error + render" where
  "row_loop F y x st =
     (if x < width F
      then (case render_pixel F x y st of
              Inl e \<Rightarrow> Inl e
            | Inr st' \<Rightarrow> row_loop F y (x + 1) st')
      else Inr st)"
  by pat_completeness auto
termination
  by (relation "measure (\<lambda>(F, y, x, st). width F - x)") auto

declare row_loop.simps [simp del]

text \<open>
  The row loop of \<open>generateArt\<close>. At \<open>await new Promise(r => setTimeout(r, 0))\<close> the
  function is suspended and other handlers of the page run; \<open>sched y\<close> is what they do to
  the page at the yield after row \<open>y\<close>. The locals of the suspended call (\<open>pixels\<close>,
  \<open>myRNG\<close>, \<open>simplex\<close>, \<open>colors\<close>) are out of their reach.
\<close>

function generate_rows ::
  "(nat \<Rightarrow> page \<Rightarrow> page) \<Rightarrow> frame \<Rightarrow> nat \<Rightarrow> page \<Rightarrow> render \<Rightarrow> page \<times> (error + render)" where
  "generate_rows sched F y pg st =
     (if y < height F
      then (case row_loop F y 0 st of
              Inl e \<Rightarrow> (pg, Inl e)
            | Inr st' \<Rightarrow>
                generate_rows sched F (y + 1)
                  (if y mod CHUNK_SIZE = 0 then sched y pg else pg) st')
      else (pg, Inr st))"
  by pat_completeness auto
termination
  by (relation "measure (\<lambda>(sched, F, y, pg, st). height F - y)") auto

declare generate_rows.simps [simp del]

text \<open>The same pixel loop without the yield.\<close>

function plain_rows :: "frame \<Rightarrow> nat \<Rightarrow> render \<Rightarrow> error + render" where
  "plain_rows F y st =
     (if y < height F
      then (case row_loop F y 0 st of
              Inl e \<Rightarrow> Inl e
            | Inr st' \<Rightarrow> plain_rows F (y + 1) st')
      else Inr st)"
  by pat_completeness auto
termination
  by (relation "measure (\<lambda>(F, y, st). height F - y)") auto

declare plain_rows.simps [simp del]

subsection \<open>\<open>generateArt\<close>\<close>

text \<open>
  \<open>generateArt_at\<close> is \<open>generateArt\<close> with the size of the canvas as a parameter. It
  returns the page as the call leaves it, and the raster (\<open>imageData.data\<close>), or the
  exception that ended the call.
\<close>

definition generateArt_at ::
  "host \<Rightarrow> nat \<Rightarrow> nat \<Rightarrow> (nat \<Rightarrow> page \<Rightarrow> page) \<Rightarrow> page \<Rightarrow> WorldData \<Rightarrow> page \<times> (error + nat list)" where
  "generateArt_at L w h sched pg d =
     (let seedString = to_string (timestamp d) @ ''_RETRO_V7'';
          rng0 = new_seedrandom L seedString;
          (simplex, rng1) = new_SimplexNoise L rng0;
          pg1 = pg\<lparr>timestampDisplay := toUpperCase (toLocaleDateString L (timestamp d))\<rparr>
      in case draftColors L (to_number (p_season d)) (to_number (p_sentiment d))
                (to_number (p_entropy d)) seedString of
           Inl e \<Rightarrow> (pg1, Inl e)
         | Inr cs \<Rightarrow>
             (let F = \<lparr>noise2D = simplex, colors = cs, data = d, zoom = zoom_of d,
                       distortion = distortion_of d, width = w, height = h\<rparr>;
                  st0 = \<lparr>pixels = createImageData w h, myRNG = rng1\<rparr>
              in case generate_rows sched F 0 pg1 st0 of
                   (pg2, Inl e) \<Rightarrow> (pg2, Inl e)
                 | (pg2, Inr st) \<Rightarrow>
                     (pg2\<lparr>canvas := pixels st, lastGeneratedImageData := Some (pixels st)\<rparr>,
                      Inr (pixels st))))"

definition generateArt ::
  "host \<Rightarrow> (nat \<Rightarrow> page \<Rightarrow> page) \<Rightarrow> page \<Rightarrow> WorldData \<Rightarrow> page \<times> (error + nat list)" where
  "generateArt L sched pg d = generateArt_at L CANVAS_WIDTH CANVAS_HEIGHT sched pg d"

text \<open>The pixel loop run to its end without any yield, on the same inputs.\<close>

definition generateArt_no_yield :: "host \<Rightarrow> nat \<Rightarrow> nat \<Rightarrow> WorldData \<Rightarrow> error + nat list" where
  "generateArt_no_yield L w h d =
     (let seedString = to_string (timestamp d) @ ''_RETRO_V7'';
          rng0 = new_seedrandom L seedString;
          (simplex, rng1) = new_SimplexNoise L rng0
      in case draftColors L (to_number (p_season d)) (to_number (p_sentiment d))
                (to_number (p_entropy d)) seedString of
           Inl e \<Rightarrow> Inl e
         | Inr cs \<Rightarrow>
             (let F = \<lparr>noise2D = simplex, colors = cs, data = d, zoom = zoom_of d,
                       distortion = distortion_of d, width = w, height = h\<rparr>;
                  st0 = \<lparr>pixels = createImageData w h, myRNG = rng1\<rparr>
              in case plain_rows F 0 st0 of
                   Inl e \<Rightarrow> Inl e
                 | Inr st \<Rightarrow> Inr (pixels st)))"


section \<open>The state of the pixel loop\<close>

text \<open>
  \<open>painted F g0 n st\<close>: the loop started with the generator \<open>g0\<close> has handled the first
  \<open>n\<close> pixels in row-major order. It has drawn \<open>n\<close> numbers, and pixel \<open>k < n\<close>, at
  column \<open>k mod width\<close> of row \<open>k div width\<close>, holds the stored form of the channels that
  \<open>pixel_rgb\<close> computes from the \<open>k\<close>-th of these numbers, and the alpha value 255.
\<close>

definition painted :: "frame \<Rightarrow> rng \<Rightarrow> nat \<Rightarrow> render \<Rightarrow> bool" where
  "painted F g0 n st \<longleftrightarrow>
     draws (myRNG st) = draws g0 \<and> used (myRNG st) = used g0 + n \<and>
     (\<forall>k<n. \<exists>r g b.
        pixel_rgb F (k mod width F) (k div width F) (draws g0 (used g0 + k)) = Inr (r, g, b) \<and>
        pixels st ! (4 * k) = ToUint8Clamp r \<and>
        pixels st ! (4 * k + 1) = ToUint8Clamp g \<and>
        pixels st ! (4 * k + 2) = ToUint8Clamp b \<and>
        pixels st ! (4 * k + 3) = 255)"

section \<open>The contract of the generator\<close>

text \<open>\<open>Math.seedrandom\<close> promises numbers in \<open>[0, 1)\<close>; \<open>unit_draws ds k\<close> says so of the
  first \<open>k\<close> numbers of the sequence \<open>ds\<close>.\<close>

definition unit_draws :: "(nat \<Rightarrow> real) \<Rightarrow> nat \<Rightarrow> bool" where
  "unit_draws ds k = (\<forall>n<k. 0 \<le> ds n \<and> ds n < 1)"

section \<open>Sample inputs\<close>

text \<open>A stand-in for the libraries: a generator that steps through the tenths, a field
  that grows with its second coordinate within \<open>[-1, 1]\<close>, a constructor that draws two
  numbers. \<open>data0\<close> is the record of the scenario in the specification.\<close>

definition noise_probe :: "jsnum \<Rightarrow> jsnum \<Rightarrow> jsnum" where
  "noise_probe u v = (case v of Num b \<Rightarrow> Num (max (- 1) (min 1 (b / 2000))) | NaN \<Rightarrow> NaN)"

definition host0 :: host where
  "host0 = \<lparr>seedrandom = (\<lambda>seed n. real ((length seed + 3 * n) mod 10) / 10),
            SimplexNoise = (\<lambda>ds. (noise_probe, 2)),
            toLocaleDateString = (\<lambda>t. case t of None \<Rightarrow> ''Invalid Date'' | Some s \<Rightarrow> take 10 s)\<rparr>"

definition data0 :: WorldData where
  "data0 = \<lparr>timestamp = Some ''2025-01-01T00:00:00Z'', p_season = Some 0.8,
            p_sentiment = Some 0.5, p_entropy = Some 0.7, p_humanity = Some 0.5,
            p_atmosphere = Some 0.5\<rparr>"

text \<open>A record without time stamp and without \<open>p_humanity\<close>, its other signals outside
  \<open>[0, 1]\<close>.\<close>

definition data_bad :: WorldData where
  "data_bad = \<lparr>timestamp = None, p_season = Some 2, p_sentiment = Some 0.5,
               p_entropy = Some (- 3), p_humanity = None, p_atmosphere = Some 7\<rparr>"

definition page0 :: page where
  "page0 = \<lparr>canvas = [], timestampDisplay = [], lastGeneratedImageData = None\<rparr>"

text \<open>A generator that breaks its contract and returns 1.\<close>

definition host_bad :: host where
  "host_bad = host0\<lparr>seedrandom := (\<lambda>seed n. 1)\<rparr>"

text \<open>What other handlers may do to the page while \<open>generateArt\<close> is suspended: nothing,
  or clear the canvas and forget the last raster.\<close>

definition sched_wipe :: "nat \<Rightarrow> page \<Rightarrow> page" where
  "sched_wipe y pg = pg\<lparr>canvas := [], lastGeneratedImageData := None\<rparr>"

definition sched_idle :: "nat \<Rightarrow> page \<Rightarrow> page" where
  "sched_idle y pg = pg"

text \<open>A page that shows an earlier raster.\<close>

definition page_old :: page where
  "page_old = \<lparr>canvas = [1, 2, 3, 255], timestampDisplay = ''OLD'',
                lastGeneratedImageData = Some [1, 2, 3, 255]\<rparr>"

text \<open>A generator that always returns 1/4, and a browser in another time zone.\<close>

definition host_quarter :: host where
  "host_quarter = host0\<lparr>seedrandom := (\<lambda>seed n. 1 / 4)\<rparr>"

definition host_later :: host where
  "host_later = host0\<lparr>toLocaleDateString := (\<lambda>t. ''another time zone'')\<rparr>"

section \<open>Sentiment and color drafting\<close>

text \<open>C7: the sentiment does not influence color drafting: with the same season, entropy
  and seed, any two sentiment values give the same result.\<close>

theorem draftColors_ignores_sentiment:
  "draftColors L season s1 entropy seedStr = draftColors L season s2 entropy seedStr"
  by (simp add: draftColors_def)

section \<open>Quantization\<close>

lemma quantize_range: "0 \<le> quantize v \<and> quantize v \<le> 4"
  by (simp add: quantize_def)

lemma clamp_index_quantize: "clamp_index (quantize v) = quantize v"
  using quantize_range [of v] by (simp add: clamp_index_def Let_def)

text \<open>C4: the palette index of a dithered value follows the thresholds 0.30, 0.50, 0.70
  and 0.85; it lies in 0..4 for every value (\<open>NaN\<close> included), it does not decrease when
  the value grows, each index is taken exactly on its band, and the clamp to 0..4 leaves
  it as it is.\<close>

theorem quantize_buckets:
  "0 \<le> quantize d \<and> quantize d \<le> 4
   \<and> clamp_index (quantize d) = quantize d
   \<and> (a \<le> b \<longrightarrow> quantize (Num a) \<le> quantize (Num b))
   \<and> (quantize (Num v) = 0 \<longleftrightarrow> v < 0.30)
   \<and> (quantize (Num v) = 1 \<longleftrightarrow> 0.30 \<le> v \<and> v < 0.50)
   \<and> (quantize (Num v) = 2 \<longleftrightarrow> 0.50 \<le> v \<and> v < 0.70)
   \<and> (quantize (Num v) = 3 \<longleftrightarrow> 0.70 \<le> v \<and> v < 0.85)
   \<and> (quantize (Num v) = 4 \<longleftrightarrow> 0.85 \<le> v)"
proof -
  have mono: "a \<le> b \<longrightarrow> quantize (Num a) \<le> quantize (Num b)"
    by (simp add: quantize_def)
  have buckets:
    "quantize (Num v) = 0 \<longleftrightarrow> v < 0.30"
    "quantize (Num v) = 1 \<longleftrightarrow> 0.30 \<le> v \<and> v < 0.50"
    "quantize (Num v) = 2 \<longleftrightarrow> 0.50 \<le> v \<and> v < 0.70"
    "quantize (Num v) = 3 \<longleftrightarrow> 0.70 \<le> v \<and> v < 0.85"
    "quantize (Num v) = 4 \<longleftrightarrow> 0.85 \<le> v"
    by (auto simp: quantize_def)
  show ?thesis
    using quantize_range [of d] clamp_index_quantize [of d] mono buckets by blast
qed

theorem quantize_buckets_witness:
  "(0.2::real) \<le> 0.9 \<and> quantize (Num 0.2) = 0 \<and> quantize (Num 0.9) = 4
   \<and> quantize (Num 0.2) \<le> quantize (Num 0.9)
   \<and> clamp_index (quantize (Num 0.6)) = 2 \<and> quantize NaN = 4"
  using quantize_buckets [of "Num 0.6" "0.2" "0.9" "0.6"]
  by (simp add: quantize_def)

section \<open>Run parameters and grain\<close>

text \<open>C3: for a record whose signals are present, \<open>zoom = 0.002 + p_humanity * 0.002\<close>,
  \<open>distortion = 100 + p_entropy * 200\<close>, \<open>grainAmount = 0.1 + p_atmosphere * 0.1\<close>, with
  the literal values at 0 and 1; and with \<open>p_atmosphere\<close> in \<open>[0, 1]\<close> and a draw in
  \<open>[0, 1)\<close>, the grain is \<open>(draw - 0.5) * grainAmount\<close> and lies in
  \<open>[-grainAmount/2, grainAmount/2)\<close>.\<close>

theorem run_parameters:
  assumes "p_humanity d = Some hu" and "p_entropy d = Some en" and "p_atmosphere d = Some atm"
    and "0 \<le> atm" and "atm \<le> 1" and "0 \<le> r" and "r < 1"
  shows "zoom_of d = Num (0.002 + hu * 0.002)
    \<and> distortion_of d = Num (100 + en * 200)
    \<and> grainAmount_of d = Num (0.1 + atm * 0.1)
    \<and> (hu = 0 \<longrightarrow> zoom_of d = Num 0.002) \<and> (hu = 1 \<longrightarrow> zoom_of d = Num 0.004)
    \<and> (en = 0 \<longrightarrow> distortion_of d = Num 100) \<and> (en = 1 \<longrightarrow> distortion_of d = Num 300)
    \<and> (atm = 0 \<longrightarrow> grainAmount_of d = Num 0.1) \<and> (atm = 1 \<longrightarrow> grainAmount_of d = Num 0.2)
    \<and> grain_of d r = Num ((r - 0.5) * (0.1 + atm * 0.1))
    \<and> - ((0.1 + atm * 0.1) / 2) \<le> (r - 0.5) * (0.1 + atm * 0.1)
    \<and> (r - 0.5) * (0.1 + atm * 0.1) < (0.1 + atm * 0.1) / 2"
proof -
  let ?g = "0.1 + atm * 0.1"
  have pos: "0 < ?g" using assms(4) by simp
  have lo: "- (?g / 2) \<le> (r - 0.5) * ?g"
  proof -
    have "(- 0.5) * ?g \<le> (r - 0.5) * ?g"
      using pos assms(6) by (intro mult_right_mono) simp_all
    then show ?thesis by simp
  qed
  have hi: "(r - 0.5) * ?g < ?g / 2"
  proof -
    have "(r - 0.5) * ?g < 0.5 * ?g"
      using pos assms(7) by (intro mult_strict_right_mono) simp_all
    then show ?thesis by simp
  qed
  show ?thesis
    using assms(1-3) lo hi
    by (simp add: zoom_of_def distortion_of_def grainAmount_of_def grain_of_def)
qed

theorem run_parameters_witness:
  "zoom_of data0 = Num 0.003 \<and> distortion_of data0 = Num 240
   \<and> grainAmount_of data0 = Num 0.15 \<and> grain_of data0 0.3 = Num (- 0.03)"
  using run_parameters [of data0 "0.5" "0.7" "0.5" "0.3"]
  by (simp add: data0_def)

section \<open>Domain warping\<close>

text \<open>C2 (amended): the warped noise value of pixel \<open>(x, y)\<close> samples the field at
  \<open>(x*zoom, y*zoom)\<close> and at \<open>((x + 1000)*zoom, (y + 1000)*zoom)\<close>, that is with the offset
  \<open>1000*zoom\<close> in the coordinates of the field, displaces the pixel by
  \<open>warp * distortion\<close>, samples a third time at the displaced position times \<open>zoom\<close>, and
  maps the result \<open>v\<close> to \<open>(v + 1) / 2\<close>.\<close>

theorem warped_value_formula:
  assumes "\<And>u v. n (Num u) (Num v) = Num (f u v)"
  shows "warped_value n (Num z) (Num k) x y =
     Num ((f ((real x + f (real x * z) (real y * z) * k) * z)
             ((real y + f (real x * z + 1000 * z) (real y * z + 1000 * z) * k) * z) + 1) / 2)"
  by (simp add: warped_value_def assms distrib_right)

theorem warped_value_formula_witness:
  "warped_value noise_probe (Num 0.003) (Num 240) 0 0 = Num (1000000540 / 2000000000)"
  using warped_value_formula [of noise_probe "\<lambda>u v. max (- 1) (min 1 (v / 2000))" "0.003" 240 0 0]
  by (simp add: noise_probe_def)

text \<open>C2 as stated, with the second sample at \<open>(x*zoom + 1000, y*zoom + 1000)\<close>, gives
  another value than the code at pixel \<open>(0, 0)\<close> of the scenario record.\<close>

theorem warped_value_offset_counterexample:
  "let z = zoom_of data0; k = distortion_of data0; n = noise_probe;
       xWarp = n (Num 0 * z) (Num 0 * z);
       yWarp = n (Num 0 * z + Num 1000) (Num 0 * z + Num 1000);
       finalX = Num 0 + xWarp * k;
       finalY = Num 0 + yWarp * k
   in warped_value n z k 0 0 \<noteq> js_div (n (finalX * z) (finalY * z) + Num 1) (Num 2)"
  by (simp add: warped_value_def noise_probe_def zoom_of_def distortion_of_def data0_def)


section \<open>The palette\<close>

lemma floor_scaled_draw:
  assumes "0 \<le> r" and "r < 1" and "0 < n"
  shows "0 \<le> \<lfloor>r * real n\<rfloor>" and "nat \<lfloor>r * real n\<rfloor> < n"
proof -
  show "0 \<le> \<lfloor>r * real n\<rfloor>" using assms by simp
  have "r * real n < real n" using assms by simp
  then have "\<lfloor>r * real n\<rfloor> < int n" by (simp add: floor_less_iff)
  with \<open>0 \<le> \<lfloor>r * real n\<rfloor>\<close> show "nat \<lfloor>r * real n\<rfloor> < n"
    by (simp add: nat_less_iff)
qed

lemma js_index_draw:
  assumes "0 \<le> r" and "r < 1" and "pool \<noteq> []"
  shows "js_index pool \<lfloor>r * real (length pool)\<rfloor> = Some (pool ! nat \<lfloor>r * real (length pool)\<rfloor>)"
  using floor_scaled_draw [OF assms(1,2), of "length pool"] assms(3)
  by (simp add: js_index_def)

lemma push_pick_eq:
  "push_pick pool (sel, g) =
     (sel @ [js_index pool \<lfloor>draws g (used g) * real (length pool)\<rfloor>], g\<lparr>used := used g + 1\<rparr>)"
  by (simp add: push_pick_def pickFrom_def rng_call_def)

lemma draftColors_eq:
  "draftColors L season sentiment entropy seedStr =
     (let ds = seedrandom L (seedStr @ ''_COLOR_DRAFT'');
          pick = (\<lambda>pool n. js_index pool \<lfloor>ds n * real (length pool)\<rfloor>)
      in map_hexToRgb
           [pick (if js_gt season (Num 0.6) then POOL_dark else POOL_light) 0,
            pick POOL_vibrant 1,
            pick (if js_gt season (Num 0.6) then POOL_light else POOL_dark) 2,
            pick (if js_gt entropy (Num 0.5) then POOL_vibrant else POOL_light) 3,
            pick (if js_gt entropy (Num 0.5) then POOL_vibrant else POOL_dark) 4])"
  by (simp add: draftColors_def push_pick_eq new_seedrandom_def Let_def eval_nat_numeral)

lemma pools_nonempty: "POOL_dark \<noteq> []" "POOL_vibrant \<noteq> []" "POOL_light \<noteq> []"
  by (simp_all add: POOL_dark_def POOL_vibrant_def POOL_light_def)

lemma sint_low_byte:
  fixes w :: "32 word"
  shows "0 \<le> sint (w AND 255) \<and> sint (w AND 255) \<le> 255"
proof -
  have le: "uint (w AND 255) \<le> 255"
    using word_and_le1 [of w 255] by (simp add: word_le_def)
  have ge: "0 \<le> uint (w AND 255)"
    by simp
  have "signed_take_bit 31 (uint (w AND 255)) = uint (w AND 255)"
  proof (rule signed_take_bit_int_eq_self)
    have "(- (2 ^ 31) :: int) \<le> 0" by simp
    then show "- (2 ^ 31) \<le> uint (w AND 255)" using ge by (rule order_trans)
    have "(255 :: int) < 2 ^ 31" by simp
    with le show "uint (w AND 255) < 2 ^ 31" by (rule le_less_trans)
  qed
  then have "sint (w AND 255) = uint (w AND 255)"
    by (simp add: sint_uint)
  then show ?thesis using le by simp
qed

lemma hexToRgb_range:
  "hexToRgb hex = (r, g, b) \<Longrightarrow> 0 \<le> r \<and> r \<le> 255 \<and> 0 \<le> g \<and> g \<le> 255 \<and> 0 \<le> b \<and> b \<le> 255"
  using sint_low_byte by (auto simp: hexToRgb_def Let_def)

lemma map_hexToRgb_Some: "map_hexToRgb (map Some hs) = Inr (map hexToRgb hs)"
  by (induction hs) simp_all

lemma map_hexToRgb_length: "map_hexToRgb sel = Inr cs \<Longrightarrow> length cs = length sel"
proof (induction sel arbitrary: cs)
  case Nil
  then show ?case by simp
next
  case (Cons a sel)
  then show ?case by (cases a) (auto split: sum.splits)
qed

lemma draftColors_length: "draftColors L season sentiment entropy seedStr = Inr cs \<Longrightarrow> length cs = 5"
  by (auto simp: draftColors_eq Let_def dest!: map_hexToRgb_length)

lemma draftColors_unit:
  assumes ds: "ds = seedrandom L (seedStr @ ''_COLOR_DRAFT'')"
    and pick: "pick = (\<lambda>pool n. pool ! nat \<lfloor>ds n * real (length pool)\<rfloor>)"
    and unit: "unit_draws ds 5"
  shows "draftColors L season sentiment entropy seedStr =
     Inr (map hexToRgb
           [pick (if js_gt season (Num 0.6) then POOL_dark else POOL_light) 0,
            pick POOL_vibrant 1,
            pick (if js_gt season (Num 0.6) then POOL_light else POOL_dark) 2,
            pick (if js_gt entropy (Num 0.5) then POOL_vibrant else POOL_light) 3,
            pick (if js_gt entropy (Num 0.5) then POOL_vibrant else POOL_dark) 4])"
proof -
  have d: "0 \<le> ds n \<and> ds n < 1" if "n < 5" for n
    using unit that by (simp add: unit_draws_def)
  have p: "js_index pool \<lfloor>ds n * real (length pool)\<rfloor> = Some (pick pool n)"
    if "n < 5" and "pool \<noteq> []" for pool n
    using js_index_draw [of "ds n" pool] d [OF that(1)] that(2) by (simp add: pick)
  have "draftColors L season sentiment entropy seedStr =
      map_hexToRgb (map Some
           [pick (if js_gt season (Num 0.6) then POOL_dark else POOL_light) 0,
            pick POOL_vibrant 1,
            pick (if js_gt season (Num 0.6) then POOL_light else POOL_dark) 2,
            pick (if js_gt entropy (Num 0.5) then POOL_vibrant else POOL_light) 3,
            pick (if js_gt entropy (Num 0.5) then POOL_vibrant else POOL_dark) 4])"
    unfolding draftColors_eq Let_def ds [symmetric]
    by (simp add: p pools_nonempty del: map_hexToRgb.simps)
  then show ?thesis by (simp only: map_hexToRgb_Some)
qed

lemma pick_in_pool:
  assumes "0 \<le> r" and "r < 1" and "pool \<noteq> []"
  shows "pool ! nat \<lfloor>r * real (length pool)\<rfloor> \<in> set pool"
  using floor_scaled_draw(2) [OF assms(1,2), of "length pool"] assms(3) by simp

text \<open>C5: with draws in \<open>[0, 1)\<close>, \<open>draftColors\<close> fills slot 0 from the dark pool if
  \<open>season > 0.6\<close> and from the light pool otherwise, slot 1 from the vibrant pool, slot 2
  from the light pool if \<open>season > 0.6\<close> and from the dark pool otherwise, slots 3 and 4
  from the vibrant pool if \<open>entropy > 0.5\<close> and from the light, then the dark pool
  otherwise; slot \<open>i\<close> is \<open>pool[floor(draw * pool.length)]\<close> for the \<open>i\<close>-th draw of the
  generator, and slots 0 and 2 hold one dark and one light color.\<close>

theorem draftColors_slot_order:
  fixes L season sentiment entropy seedStr
  defines "ds \<equiv> seedrandom L (seedStr @ ''_COLOR_DRAFT'')"
  defines "pick \<equiv> \<lambda>pool n. pool ! nat \<lfloor>ds n * real (length pool)\<rfloor>"
  assumes "unit_draws ds 5"
  shows "\<exists>cs. draftColors L season sentiment entropy seedStr = Inr cs
    \<and> cs = map hexToRgb
           [pick (if js_gt season (Num 0.6) then POOL_dark else POOL_light) 0,
            pick POOL_vibrant 1,
            pick (if js_gt season (Num 0.6) then POOL_light else POOL_dark) 2,
            pick (if js_gt entropy (Num 0.5) then POOL_vibrant else POOL_light) 3,
            pick (if js_gt entropy (Num 0.5) then POOL_vibrant else POOL_dark) 4]
    \<and> {cs ! 0, cs ! 2} \<inter> hexToRgb ` set POOL_dark \<noteq> {}
    \<and> {cs ! 0, cs ! 2} \<inter> hexToRgb ` set POOL_light \<noteq> {}"
proof -
  have d: "0 \<le> ds n \<and> ds n < 1" if "n < 5" for n
    using assms(3) that by (simp add: unit_draws_def)
  have m: "pick pool n \<in> set pool" if "n < 5" and "pool \<noteq> []" for pool n
    using pick_in_pool [of "ds n" pool] d [OF that(1)] that(2) by (simp add: pick_def)
  have m0: "pick POOL_dark 0 \<in> set POOL_dark" "pick POOL_light 0 \<in> set POOL_light"
    and m2: "pick POOL_dark 2 \<in> set POOL_dark" "pick POOL_light 2 \<in> set POOL_light"
    by (simp_all add: m pools_nonempty)
  have dseq: "ds = seedrandom L (seedStr @ ''_COLOR_DRAFT'')"
    and pickeq: "pick = (\<lambda>pool n. pool ! nat \<lfloor>ds n * real (length pool)\<rfloor>)"
    by (simp_all add: ds_def pick_def)
  show ?thesis
    unfolding draftColors_unit [OF dseq pickeq assms(3)]
    using m0 m2 by (cases "js_gt season (Num 0.6)") auto
qed

theorem draftColors_slot_order_witness:
  "unit_draws (seedrandom host0 (''2025-01-01T00:00:00Z_RETRO_V7'' @ ''_COLOR_DRAFT'')) 5
   \<and> draftColors host0 (Num 0.8) (Num 0.5) (Num 0.7) ''2025-01-01T00:00:00Z_RETRO_V7'' =
       Inr [(44, 62, 80), (46, 204, 113), (232, 248, 245), (255, 87, 51), (144, 12, 63)]"
proof -
  have h: "unit_draws (seedrandom host0 (''2025-01-01T00:00:00Z_RETRO_V7'' @ ''_COLOR_DRAFT'')) 5"
    by (simp add: unit_draws_def host0_def)
  show ?thesis
    using h draftColors_slot_order [OF h, of "Num 0.8" "Num 0.5" "Num 0.7"]
    by (simp add: host0_def POOL_dark_def POOL_vibrant_def POOL_light_def hexToRgb_def
        parseInt16_def hex_digit_def is_space_def)
qed

text \<open>C6: with draws in \<open>[0, 1)\<close>, \<open>draftColors\<close> returns exactly 5 triples, each channel
  an integer in 0..255, whatever the signals are, and every index
  \<open>floor(draw * pool.length)\<close> lies within its pool.\<close>

theorem draftColors_shape:
  fixes L season sentiment entropy seedStr
  defines "ds \<equiv> seedrandom L (seedStr @ ''_COLOR_DRAFT'')"
  assumes "unit_draws ds 5"
  shows "\<exists>cs. draftColors L season sentiment entropy seedStr = Inr cs
    \<and> length cs = 5
    \<and> (\<forall>c\<in>set cs. case c of (r, g, b) \<Rightarrow>
          0 \<le> r \<and> r \<le> 255 \<and> 0 \<le> g \<and> g \<le> 255 \<and> 0 \<le> b \<and> b \<le> 255)
    \<and> (\<forall>n<5. \<forall>pool\<in>{POOL_dark, POOL_vibrant, POOL_light}.
          0 \<le> \<lfloor>ds n * real (length pool)\<rfloor> \<and> nat \<lfloor>ds n * real (length pool)\<rfloor> < length pool)"
proof -
  have d: "0 \<le> ds n \<and> ds n < 1" if "n < 5" for n
    using assms(2) that by (simp add: unit_draws_def)
  obtain cs where cs: "draftColors L season sentiment entropy seedStr = Inr cs"
    and img: "set cs \<subseteq> range hexToRgb"
    using draftColors_unit [OF _ refl assms(2), of L seedStr season sentiment entropy]
    by (auto simp: ds_def)
  have len: "length cs = 5"
    using cs by (rule draftColors_length)
  have rng: "\<forall>c\<in>set cs. case c of (r, g, b) \<Rightarrow>
          0 \<le> r \<and> r \<le> 255 \<and> 0 \<le> g \<and> g \<le> 255 \<and> 0 \<le> b \<and> b \<le> 255"
  proof
    fix c assume "c \<in> set cs"
    then obtain hex where "c = hexToRgb hex" using img by auto
    then show "case c of (r, g, b) \<Rightarrow>
          0 \<le> r \<and> r \<le> 255 \<and> 0 \<le> g \<and> g \<le> 255 \<and> 0 \<le> b \<and> b \<le> 255"
      using hexToRgb_range [of hex] by (cases c) auto
  qed
  have idx: "0 \<le> \<lfloor>ds n * real (length pool)\<rfloor> \<and> nat \<lfloor>ds n * real (length pool)\<rfloor> < length pool"
    if "n < 5" and "pool \<noteq> []" for n pool
    using floor_scaled_draw [of "ds n" "length pool"] d [OF that(1)] that(2) by simp
  have "\<forall>n<5. \<forall>pool\<in>{POOL_dark, POOL_vibrant, POOL_light}.
          0 \<le> \<lfloor>ds n * real (length pool)\<rfloor> \<and> nat \<lfloor>ds n * real (length pool)\<rfloor> < length pool"
    using idx pools_nonempty by blast
  with cs len rng show ?thesis by blast
qed

theorem draftColors_shape_witness:
  "unit_draws (seedrandom host0 (''2025-01-01T00:00:00Z_RETRO_V7'' @ ''_COLOR_DRAFT'')) 5
   \<and> (\<exists>cs. draftColors host0 (Num 0.6) (Num 0) (Num 0.5) ''2025-01-01T00:00:00Z_RETRO_V7'' = Inr cs
         \<and> length cs = 5)"
proof -
  have h: "unit_draws (seedrandom host0 (''2025-01-01T00:00:00Z_RETRO_V7'' @ ''_COLOR_DRAFT'')) 5"
    by (simp add: unit_draws_def host0_def)
  show ?thesis
    using h draftColors_shape [OF h, of "Num 0.6" "Num 0" "Num 0.5"] by blast
qed


section \<open>The pixel loop\<close>

lemma pixel_rgb_ok:
  assumes "length (colors F) = 5"
  shows "\<exists>r g b. pixel_rgb F x y draw = Inr (r, g, b)"
proof -
  let ?i = "quantize (warped_value (noise2D F) (zoom F) (distortion F) x y + grain_of (data F) draw)"
  have "0 \<le> ?i \<and> ?i \<le> 4"
    by (rule quantize_range)
  then have "0 \<le> ?i" and "nat ?i < length (colors F)"
    unfolding assms by linarith+
  then obtain c where "js_index (colors F) ?i = Some c"
    by (simp add: js_index_def)
  then show ?thesis
    by (cases c) (simp add: pixel_rgb_def Let_def clamp_index_quantize)
qed

lemma ToUint8Clamp_255: "ToUint8Clamp (Num 255) = 255"
  by (simp add: ToUint8Clamp_def)

lemma render_pixel_painted:
  assumes len5: "length (colors F) = 5"
    and inv: "painted F g0 n st"
    and n: "n = y * width F + x" and x: "x < width F"
    and room: "4 * n + 4 \<le> length (pixels st)"
  shows "\<exists>st'. render_pixel F x y st = Inr st' \<and> painted F g0 (Suc n) st'
           \<and> length (pixels st') = length (pixels st)"
proof -
  from inv have dr: "draws (myRNG st) = draws g0" and us: "used (myRNG st) = used g0 + n"
    and old: "\<And>k. k < n \<Longrightarrow> \<exists>r g b.
        pixel_rgb F (k mod width F) (k div width F) (draws g0 (used g0 + k)) = Inr (r, g, b) \<and>
        pixels st ! (4 * k) = ToUint8Clamp r \<and>
        pixels st ! (4 * k + 1) = ToUint8Clamp g \<and>
        pixels st ! (4 * k + 2) = ToUint8Clamp b \<and>
        pixels st ! (4 * k + 3) = 255"
    by (simp_all add: painted_def)
  obtain r g b where rgb: "pixel_rgb F x y (draws g0 (used g0 + n)) = Inr (r, g, b)"
    using pixel_rgb_ok [OF len5] by blast
  define px where "px = (pixels st)
        [4 * n := ToUint8Clamp r, 4 * n + 1 := ToUint8Clamp g,
         4 * n + 2 := ToUint8Clamp b, 4 * n + 3 := 255]"
  define st' where "st' = \<lparr>pixels = px, myRNG = (myRNG st)\<lparr>used := used (myRNG st) + 1\<rparr>\<rparr>"
  have step: "render_pixel F x y st = Inr st'"
    using rgb by (simp add: render_pixel_def rng_call_def dr us Let_def n st'_def px_def
        ToUint8Clamp_255 mult.commute)
  have len: "length px = length (pixels st)"
    by (simp add: px_def)
  have pos: "n mod width F = x" "n div width F = y"
    using x by (simp_all add: n)
  have new: "px ! (4 * n) = ToUint8Clamp r" "px ! (4 * n + 1) = ToUint8Clamp g"
    "px ! (4 * n + 2) = ToUint8Clamp b" "px ! (4 * n + 3) = 255"
    using room by (simp_all add: px_def)
  have keep: "px ! i = pixels st ! i" if "i < 4 * n" for i
    using that by (simp add: px_def)
  have "painted F g0 (Suc n) st'"
    unfolding painted_def
  proof (intro conjI allI impI)
    show "draws (myRNG st') = draws g0" by (simp add: st'_def dr)
    show "used (myRNG st') = used g0 + Suc n" by (simp add: st'_def us)
    fix k assume "k < Suc n"
    show "\<exists>r g b.
        pixel_rgb F (k mod width F) (k div width F) (draws g0 (used g0 + k)) = Inr (r, g, b) \<and>
        pixels st' ! (4 * k) = ToUint8Clamp r \<and>
        pixels st' ! (4 * k + 1) = ToUint8Clamp g \<and>
        pixels st' ! (4 * k + 2) = ToUint8Clamp b \<and>
        pixels st' ! (4 * k + 3) = 255"
    proof (cases "k = n")
      case True
      then show ?thesis using rgb new pos by (simp add: st'_def)
    next
      case False
      with \<open>k < Suc n\<close> have kn: "k < n" by simp
      then have "4 * k < 4 * n" "4 * k + 1 < 4 * n" "4 * k + 2 < 4 * n" "4 * k + 3 < 4 * n"
        by simp_all
      then show ?thesis using old [OF kn] by (simp add: st'_def keep)
    qed
  qed
  with step len show ?thesis by (auto simp: st'_def)
qed

lemma row_loop_painted:
  assumes "length (colors F) = 5"
    and "painted F g0 (y * width F + x) st"
    and "x \<le> width F"
    and "4 * (y * width F + width F) \<le> length (pixels st)"
  shows "\<exists>st'. row_loop F y x st = Inr st' \<and> painted F g0 (y * width F + width F) st'
           \<and> length (pixels st') = length (pixels st)"
  using assms
proof (induction F y x st rule: row_loop.induct)
  case (1 F y x st)
  show ?case
  proof (cases "x < width F")
    case False
    then have stop: "row_loop F y x st = Inr st"
      by (simp add: row_loop.simps [of F y x st])
    from False "1.prems" have "x = width F" by simp
    with "1.prems" stop show ?thesis by simp
  next
    case True
    then have room: "4 * (y * width F + x) + 4 \<le> length (pixels st)"
      using "1.prems"(4) by simp
    obtain st1 where s1: "render_pixel F x y st = Inr st1"
      and p1: "painted F g0 (Suc (y * width F + x)) st1"
      and l1: "length (pixels st1) = length (pixels st)"
      using render_pixel_painted [OF "1.prems"(1,2) refl True room] by blast
    have "\<exists>st'. row_loop F y (x + 1) st1 = Inr st' \<and> painted F g0 (y * width F + width F) st'
           \<and> length (pixels st') = length (pixels st1)"
      using "1.IH" [OF True s1 "1.prems"(1)] p1 True "1.prems"(4) l1 by simp
    with True s1 l1 show ?thesis by (simp add: row_loop.simps [of F y x st])
  qed
qed

lemma plain_rows_painted:
  assumes "length (colors F) = 5"
    and "painted F g0 (y * width F) st"
    and "y \<le> height F"
    and "length (pixels st) = 4 * (height F * width F)"
  shows "\<exists>st'. plain_rows F y st = Inr st' \<and> painted F g0 (height F * width F) st'
           \<and> length (pixels st') = length (pixels st)"
  using assms
proof (induction F y st rule: plain_rows.induct)
  case (1 F y st)
  show ?case
  proof (cases "y < height F")
    case False
    then have stop: "plain_rows F y st = Inr st"
      by (simp add: plain_rows.simps [of F y st])
    from False "1.prems" have "y = height F" by simp
    with "1.prems" stop show ?thesis by simp
  next
    case True
    then have "Suc y \<le> height F" by simp
    then have "Suc y * width F \<le> height F * width F"
      by (rule mult_le_mono1)
    then have room: "4 * (y * width F + width F) \<le> length (pixels st)"
      using "1.prems"(4) by simp
    obtain st1 where s1: "row_loop F y 0 st = Inr st1"
      and p1: "painted F g0 (y * width F + width F) st1"
      and l1: "length (pixels st1) = length (pixels st)"
      using row_loop_painted [of F g0 y 0 st] "1.prems"(1,2) room by auto
    have "\<exists>st'. plain_rows F (y + 1) st1 = Inr st' \<and> painted F g0 (height F * width F) st'
           \<and> length (pixels st') = length (pixels st1)"
      using "1.IH" [OF True s1 "1.prems"(1)] p1 True "1.prems"(4) l1 by (simp add: add.commute)
    with True s1 l1 show ?thesis by (simp add: plain_rows.simps [of F y st])
  qed
qed

section \<open>Yielding between rows\<close>

lemma generate_rows_plain: "snd (generate_rows sched F y pg st) = plain_rows F y st"
proof (induction sched F y pg st rule: generate_rows.induct)
  case (1 sched F y pg st)
  show ?case
  proof (cases "y < height F")
    case False
    then show ?thesis
      by (simp add: generate_rows.simps [of sched F y pg st] plain_rows.simps [of F y st])
  next
    case True
    show ?thesis
    proof (cases "row_loop F y 0 st")
      case (Inl e)
      with True show ?thesis
        by (simp add: generate_rows.simps [of sched F y pg st] plain_rows.simps [of F y st])
    next
      case (Inr st')
      with True "1.IH" [OF True Inr] show ?thesis
        by (simp add: generate_rows.simps [of sched F y pg st] plain_rows.simps [of F y st])
    qed
  qed
qed

lemma generateArt_at_plain:
  "snd (generateArt_at L w h sched pg d) = generateArt_no_yield L w h d"
proof -
  have "snd (case generate_rows sched F 0 pg1 st0 of
               (pg2, Inl e) \<Rightarrow> (pg2, Inl e)
             | (pg2, Inr st) \<Rightarrow>
                 (pg2\<lparr>canvas := pixels st, lastGeneratedImageData := Some (pixels st)\<rparr>,
                  Inr (pixels st)))
        = (case plain_rows F 0 st0 of Inl e \<Rightarrow> Inl e | Inr st \<Rightarrow> Inr (pixels st))"
    for F pg1 st0
    using generate_rows_plain [of sched F 0 pg1 st0]
    by (cases "generate_rows sched F 0 pg1 st0") (auto split: sum.splits)
  then show ?thesis
    by (simp add: generateArt_at_def generateArt_no_yield_def Let_def
        split: prod.splits sum.splits)
qed


text \<open>C1: the raster is a function of the input record and the dimensions alone. Two calls
  of \<open>generateArt\<close> on the same record give the same result whatever the page holds and
  whatever happens to it at the yields, also when the second call starts from the page
  that the first one left, and when the browser formats dates differently.\<close>

theorem generateArt_deterministic:
  "snd (generateArt_at L w h sched1 pg1 d) = snd (generateArt_at L w h sched2 pg2 d)
   \<and> snd (generateArt_at L w h sched2 (fst (generateArt_at L w h sched1 pg1 d)) d)
       = snd (generateArt_at L w h sched1 pg1 d)
   \<and> snd (generateArt L sched1 pg1 d) = snd (generateArt L sched2 pg2 d)
   \<and> (seedrandom L' = seedrandom L \<and> SimplexNoise L' = SimplexNoise L \<longrightarrow>
        snd (generateArt_at L' w h sched2 pg2 d) = snd (generateArt_at L w h sched1 pg1 d))"
proof -
  have "generateArt_no_yield L' w h d = generateArt_no_yield L w h d"
    if "seedrandom L' = seedrandom L" and "SimplexNoise L' = SimplexNoise L"
    unfolding generateArt_no_yield_def draftColors_def new_seedrandom_def
      new_SimplexNoise_def that ..
  then show ?thesis
    by (simp add: generateArt_at_plain generateArt_def)
qed



theorem generateArt_deterministic_witness:
  "seedrandom host_later = seedrandom host0 \<and> SimplexNoise host_later = SimplexNoise host0
   \<and> snd (generateArt_at host0 2 1 sched_idle page0 data0)
       = Inr [232, 248, 245, 255, 233, 249, 246, 255]
   \<and> snd (generateArt_at host_later 2 1 sched_wipe
            (fst (generateArt_at host0 2 1 sched_idle page0 data0)) data0)
       = Inr [232, 248, 245, 255, 233, 249, 246, 255]"
proof -
  have ev: "snd (generateArt_at host0 2 1 sched_idle page0 data0)
       = Inr [232, 248, 245, 255, 233, 249, 246, 255]"
    by code_simp
  have same: "seedrandom host_later = seedrandom host0 \<and> SimplexNoise host_later = SimplexNoise host0"
    by (simp add: host_later_def)
  have "snd (generateArt_at host_later 2 1 sched_wipe
            (fst (generateArt_at host0 2 1 sched_idle page0 data0)) data0)
      = snd (generateArt_at host0 2 1 sched_idle page0 data0)"
    using same
      generateArt_deterministic [of host0 2 1 sched_idle page0 data0 sched_wipe
        "fst (generateArt_at host0 2 1 sched_idle page0 data0)" host_later]
    by blast
  with ev have "snd (generateArt_at host_later 2 1 sched_wipe
            (fst (generateArt_at host0 2 1 sched_idle page0 data0)) data0)
       = Inr [232, 248, 245, 255, 233, 249, 246, 255]"
    by (rule trans [rotated])
  with same ev show ?thesis by blast
qed

text \<open>C8: yielding between rows does not change the pixels: the result of \<open>generateArt\<close>,
  whatever runs at the yields, is the result of the same pixel loop without yields.\<close>

theorem yield_does_not_change_raster:
  "snd (generateArt_at L w h sched pg d) = generateArt_no_yield L w h d
   \<and> snd (generateArt L sched pg d) = generateArt_no_yield L CANVAS_WIDTH CANVAS_HEIGHT d"
  unfolding generateArt_def by (simp add: generateArt_at_plain)

theorem yield_does_not_change_raster_witness:
  "generateArt_no_yield host0 2 1 data0 = Inr [232, 248, 245, 255, 233, 249, 246, 255]
   \<and> snd (generateArt_at host0 2 1 sched_wipe page_old data0)
       = Inr [232, 248, 245, 255, 233, 249, 246, 255]"
proof -
  have ev: "generateArt_no_yield host0 2 1 data0 = Inr [232, 248, 245, 255, 233, 249, 246, 255]"
    by code_simp
  show ?thesis
    using ev yield_does_not_change_raster [of host0 2 1 sched_wipe page_old data0] by simp
qed

section \<open>The raster\<close>

lemma ToUint8Clamp_le: "ToUint8Clamp n \<le> 255"
proof (cases n)
  case NaN
  then show ?thesis by (simp add: ToUint8Clamp_def)
next
  case (Num v)
  show ?thesis
  proof (cases "v \<le> 0 \<or> 255 \<le> v")
    case True
    then show ?thesis using Num by (auto simp: ToUint8Clamp_def)
  next
    case False
    define f where "f = \<lfloor>v\<rfloor>"
    have "f < 255" using False by (simp add: f_def floor_less_iff)
    moreover have "0 \<le> f" using False by (simp add: f_def)
    ultimately have "nat f \<le> 255" "nat (f + 1) \<le> 255" by linarith+
    then show ?thesis
      using Num False by (simp add: ToUint8Clamp_def Let_def f_def [symmetric])
  qed
qed

lemma ToUint8Clamp_saturates:
  "v \<le> 0 \<Longrightarrow> ToUint8Clamp (Num v) = 0"
  "255 \<le> v \<Longrightarrow> ToUint8Clamp (Num v) = 255"
  by (auto simp: ToUint8Clamp_def)

lemma ToUint8Clamp_rounds:
  assumes "0 \<le> v" and "v \<le> 255"
  shows "\<bar>real (ToUint8Clamp (Num v)) - v\<bar> \<le> 1 / 2"
proof (cases "v = 0 \<or> v = 255")
  case True
  then show ?thesis by (auto simp: ToUint8Clamp_def)
next
  case False
  with assms have in_range: "0 < v" "v < 255" by simp_all
  define f where "f = \<lfloor>v\<rfloor>"
  have f0: "0 \<le> f" using in_range by (simp add: f_def)
  have fl: "of_int f \<le> v" "v < of_int f + 1" by (simp_all add: f_def)
  have rf: "real (nat f) = of_int f" "real (nat (f + 1)) = of_int f + 1"
    using f0 by simp_all
  show ?thesis
    using in_range fl rf
    by (auto simp: ToUint8Clamp_def Let_def f_def [symmetric] abs_le_iff)
qed

lemma painted_start: "painted F g 0 \<lparr>pixels = px, myRNG = g\<rparr>"
  by (simp add: painted_def)

lemma generateArt_at_failure:
  assumes "draftColors L (to_number (p_season d)) (to_number (p_sentiment d))
             (to_number (p_entropy d)) (to_string (timestamp d) @ ''_RETRO_V7'') = Inl e"
  shows "generateArt_at L w h sched pg d =
     (pg\<lparr>timestampDisplay := toUpperCase (toLocaleDateString L (timestamp d))\<rparr>, Inl e)"
  using assms by (simp add: generateArt_at_def Let_def split: prod.splits)

lemma generateArt_at_success:
  fixes L w h d
  defines "ds \<equiv> seedrandom L (to_string (timestamp d) @ ''_RETRO_V7'')"
  assumes cs: "draftColors L (to_number (p_season d)) (to_number (p_sentiment d))
             (to_number (p_entropy d)) (to_string (timestamp d) @ ''_RETRO_V7'') = Inr cs"
  shows "\<exists>pg2 st. generateArt_at L w h sched pg d =
            (pg2\<lparr>canvas := pixels st, lastGeneratedImageData := Some (pixels st)\<rparr>,
             Inr (pixels st))
     \<and> painted \<lparr>noise2D = fst (SimplexNoise L ds), colors = cs, data = d, zoom = zoom_of d,
                 distortion = distortion_of d, width = w, height = h\<rparr>
               \<lparr>draws = ds, used = snd (SimplexNoise L ds)\<rparr> (h * w) st
     \<and> length (pixels st) = w * h * 4"
proof -
  define F where "F = \<lparr>noise2D = fst (SimplexNoise L ds), colors = cs, data = d,
      zoom = zoom_of d, distortion = distortion_of d, width = w, height = h\<rparr>"
  define g1 where "g1 = \<lparr>draws = ds, used = snd (SimplexNoise L ds)\<rparr>"
  define st0 where "st0 = \<lparr>pixels = createImageData w h, myRNG = g1\<rparr>"
  define pg1 where "pg1 = pg\<lparr>timestampDisplay := toUpperCase (toLocaleDateString L (timestamp d))\<rparr>"
  have noise: "new_SimplexNoise L (new_seedrandom L (to_string (timestamp d) @ ''_RETRO_V7''))
      = (fst (SimplexNoise L ds), g1)"
    by (simp add: new_SimplexNoise_def new_seedrandom_def ds_def g1_def split: prod.splits)
  have len5: "length (colors F) = 5"
    using draftColors_length [OF cs] by (simp add: F_def)
  have "\<exists>st'. plain_rows F 0 st0 = Inr st' \<and> painted F g1 (height F * width F) st'
           \<and> length (pixels st') = length (pixels st0)"
  proof (rule plain_rows_painted [OF len5])
    show "painted F g1 (0 * width F) st0" by (simp add: st0_def painted_start)
    show "0 \<le> height F" by simp
    show "length (pixels st0) = 4 * (height F * width F)"
      by (simp add: st0_def createImageData_def F_def)
  qed
  then obtain st where run: "plain_rows F 0 st0 = Inr st"
    and p: "painted F g1 (h * w) st" and l: "length (pixels st) = w * h * 4"
    by (auto simp: F_def st0_def createImageData_def)
  obtain pg2 where rows: "generate_rows sched F 0 pg1 st0 = (pg2, Inr st)"
    using generate_rows_plain [of sched F 0 pg1 st0] run
    by (cases "generate_rows sched F 0 pg1 st0") simp
  have "generateArt_at L w h sched pg d =
      (pg2\<lparr>canvas := pixels st, lastGeneratedImageData := Some (pixels st)\<rparr>, Inr (pixels st))"
    using cs rows
    by (simp add: generateArt_at_def noise Let_def F_def [symmetric] st0_def [symmetric]
        pg1_def [symmetric])
  with p l show ?thesis unfolding F_def g1_def by blast
qed

section \<open>Input validation\<close>

text \<open>C9 as stated fails: a record that lacks the time stamp and \<open>p_humanity\<close> and whose
  other signals lie outside \<open>[0, 1]\<close> is rendered to a raster, without any error.\<close>

theorem generateArt_validation_counterexample:
  "timestamp data_bad = None \<and> p_humanity data_bad = None
   \<and> p_season data_bad = Some 2 \<and> p_entropy data_bad = Some (- 3)
   \<and> p_atmosphere data_bad = Some 7
   \<and> snd (generateArt_at host0 2 1 sched_wipe page0 data_bad)
       = Inr [24, 24, 44, 255, 31, 31, 51, 255]"
proof -
  have "snd (generateArt_at host0 2 1 sched_wipe page0 data_bad)
       = Inr [24, 24, 44, 255, 31, 31, 51, 255]"
    by code_simp
  then show ?thesis by (simp add: data_bad_def)
qed

text \<open>C9 (amended): \<open>generateArt\<close> does not validate its input. For every record, with
  fields missing or out of range or not, it produces a complete raster of
  \<open>width * height * 4\<close> bytes and puts it on the canvas, provided the generator of the
  color draft keeps its contract of numbers in \<open>[0, 1)\<close>. A call that fails leaves the
  canvas and the last raster as they were.\<close>

theorem generateArt_total_and_atomic:
  "(unit_draws (seedrandom L (to_string (timestamp d) @ ''_RETRO_V7'' @ ''_COLOR_DRAFT'')) 5 \<longrightarrow>
      (\<exists>raster. snd (generateArt_at L w h sched pg d) = Inr raster
         \<and> length raster = w * h * 4
         \<and> canvas (fst (generateArt_at L w h sched pg d)) = raster
         \<and> lastGeneratedImageData (fst (generateArt_at L w h sched pg d)) = Some raster))
   \<and> (\<forall>e. snd (generateArt_at L w h sched pg d) = Inl e \<longrightarrow>
         canvas (fst (generateArt_at L w h sched pg d)) = canvas pg
         \<and> lastGeneratedImageData (fst (generateArt_at L w h sched pg d))
             = lastGeneratedImageData pg)"
proof (cases "draftColors L (to_number (p_season d)) (to_number (p_sentiment d))
             (to_number (p_entropy d)) (to_string (timestamp d) @ ''_RETRO_V7'')")
  case (Inl e)
  have "\<not> unit_draws (seedrandom L (to_string (timestamp d) @ ''_RETRO_V7'' @ ''_COLOR_DRAFT'')) 5"
  proof
    assume "unit_draws (seedrandom L (to_string (timestamp d) @ ''_RETRO_V7'' @ ''_COLOR_DRAFT'')) 5"
    then have "unit_draws (seedrandom L ((to_string (timestamp d) @ ''_RETRO_V7'') @ ''_COLOR_DRAFT'')) 5"
      by simp
    from draftColors_unit [OF refl refl this] Inl show False
      by simp
  qed
  then show ?thesis
    by (simp add: generateArt_at_failure [OF Inl])
next
  case (Inr cs)
  from generateArt_at_success [OF Inr, of w h sched pg]
  obtain pg2 :: page and st :: render where "generateArt_at L w h sched pg d =
            (pg2\<lparr>canvas := pixels st, lastGeneratedImageData := Some (pixels st)\<rparr>,
             Inr (pixels st))"
    and "length (pixels st) = w * h * 4"
    by blast
  then show ?thesis by simp
qed

theorem generateArt_total_and_atomic_witness:
  "unit_draws (seedrandom host0 (to_string (timestamp data_bad) @ ''_RETRO_V7'' @ ''_COLOR_DRAFT'')) 5
   \<and> length [24, 24, 44, 255, 31, 31, 51, 255 :: nat] = 2 * 1 * 4
   \<and> canvas (fst (generateArt_at host0 2 1 sched_wipe page_old data_bad))
       = [24, 24, 44, 255, 31, 31, 51, 255]
   \<and> snd (generateArt_at host_bad 2 1 sched_wipe page_old data0) = Inl TypeError
   \<and> canvas (fst (generateArt_at host_bad 2 1 sched_wipe page_old data0)) = [1, 2, 3, 255]
   \<and> lastGeneratedImageData (fst (generateArt_at host_bad 2 1 sched_wipe page_old data0))
       = Some [1, 2, 3, 255]"
proof -
  have h: "unit_draws (seedrandom host0 (to_string (timestamp data_bad) @ ''_RETRO_V7'' @ ''_COLOR_DRAFT'')) 5"
    by (simp add: unit_draws_def host0_def)
  have ok: "snd (generateArt_at host0 2 1 sched_wipe page_old data_bad)
       = Inr [24, 24, 44, 255, 31, 31, 51, 255]"
    by code_simp
  have bad: "snd (generateArt_at host_bad 2 1 sched_wipe page_old data0) = Inl TypeError"
    by code_simp
  show ?thesis
    using h ok bad
      generateArt_total_and_atomic [of host0 data_bad 2 1 sched_wipe page_old]
      generateArt_total_and_atomic [of host_bad data0 2 1 sched_wipe page_old]
    by (simp add: page_old_def)
qed

section \<open>Stored channels\<close>

lemma painted_byte_le:
  assumes "painted F g0 n st" and "i < 4 * n"
  shows "pixels st ! i \<le> 255"
proof -
  define k where "k = i div 4"
  have kn: "k < n" using assms(2) by (simp add: k_def)
  from assms(1) kn obtain r g b where
    px: "pixels st ! (4 * k) = ToUint8Clamp r" "pixels st ! (4 * k + 1) = ToUint8Clamp g"
      "pixels st ! (4 * k + 2) = ToUint8Clamp b" "pixels st ! (4 * k + 3) = 255"
    unfolding painted_def by blast
  have "i = 4 * k + i mod 4" by (simp add: k_def)
  moreover have "i mod 4 = 0 \<or> i mod 4 = 1 \<or> i mod 4 = 2 \<or> i mod 4 = 3" by presburger
  ultimately have "i = 4 * k \<or> i = 4 * k + 1 \<or> i = 4 * k + 2 \<or> i = 4 * k + 3"
    by presburger
  then show ?thesis
    using px ToUint8Clamp_le [of r] ToUint8Clamp_le [of g] ToUint8Clamp_le [of b] by auto
qed

lemma pixel_rgb_Inr:
  assumes "pixel_rgb F x y draw = Inr (r, g, b)"
  shows "\<exists>r0 g0 b0.
     js_index (colors F)
       (quantize (warped_value (noise2D F) (zoom F) (distortion F) x y + grain_of (data F) draw))
       = Some (r0, g0, b0)
     \<and> r = Num (real_of_int r0) + grain_of (data F) draw * Num 30
     \<and> g = Num (real_of_int g0) + grain_of (data F) draw * Num 30
     \<and> b = Num (real_of_int b0) + grain_of (data F) draw * Num 30"
  using assms
  by (auto simp: pixel_rgb_def Let_def clamp_index_quantize split: option.splits)

text \<open>C10: in the raster of a successful call, the pixel at \<open>(x, y)\<close> holds the three
  channels \<open>paletteChannel + grain * 30\<close> of its palette color, each stored through
  \<open>ToUint8Clamp\<close>, and the alpha value 255. \<open>ToUint8Clamp\<close> stores 0 for a value below 0
  and 255 for a value above 255, and otherwise an integer at most 1/2 away, so every byte
  of the raster lies in 0..255.\<close>

theorem raster_channels_clamped:
  fixes L w h sched pg d x y
  defines "ds \<equiv> seedrandom L (to_string (timestamp d) @ ''_RETRO_V7'')"
  defines "grain \<equiv> grain_of d (ds (snd (SimplexNoise L ds) + (y * w + x)))"
  defines "tone \<equiv> warped_value (fst (SimplexNoise L ds)) (zoom_of d) (distortion_of d) x y"
  assumes run: "snd (generateArt_at L w h sched pg d) = Inr raster"
    and x: "x < w" and y: "y < h"
  shows "\<exists>cs r0 g0 b0.
      draftColors L (to_number (p_season d)) (to_number (p_sentiment d))
        (to_number (p_entropy d)) (to_string (timestamp d) @ ''_RETRO_V7'') = Inr cs
    \<and> js_index cs (quantize (tone + grain)) = Some (r0, g0, b0)
    \<and> raster ! ((y * w + x) * 4) = ToUint8Clamp (Num (real_of_int r0) + grain * Num 30)
    \<and> raster ! ((y * w + x) * 4 + 1) = ToUint8Clamp (Num (real_of_int g0) + grain * Num 30)
    \<and> raster ! ((y * w + x) * 4 + 2) = ToUint8Clamp (Num (real_of_int b0) + grain * Num 30)
    \<and> raster ! ((y * w + x) * 4 + 3) = 255
    \<and> length raster = w * h * 4
    \<and> (\<forall>v\<in>set raster. v \<le> 255)
    \<and> (\<forall>v. (v \<le> 0 \<longrightarrow> ToUint8Clamp (Num v) = 0)
           \<and> (255 \<le> v \<longrightarrow> ToUint8Clamp (Num v) = 255)
           \<and> (0 \<le> v \<and> v \<le> 255 \<longrightarrow> \<bar>real (ToUint8Clamp (Num v)) - v\<bar> \<le> 1 / 2))"
proof -
  obtain cs where cs: "draftColors L (to_number (p_season d)) (to_number (p_sentiment d))
        (to_number (p_entropy d)) (to_string (timestamp d) @ ''_RETRO_V7'') = Inr cs"
  proof (cases "draftColors L (to_number (p_season d)) (to_number (p_sentiment d))
        (to_number (p_entropy d)) (to_string (timestamp d) @ ''_RETRO_V7'')")
    case (Inl e)
    from generateArt_at_failure [OF Inl, of w h sched pg] run show ?thesis by simp
  next
    case (Inr cs)
    then show ?thesis by (rule that)
  qed
  define F where "F = \<lparr>noise2D = fst (SimplexNoise L ds), colors = cs, data = d,
      zoom = zoom_of d, distortion = distortion_of d, width = w, height = h\<rparr>"
  define g1 where "g1 = \<lparr>draws = ds, used = snd (SimplexNoise L ds)\<rparr>"
  from generateArt_at_success [OF cs, of w h sched pg]
  obtain pg2 :: page and st :: render where
    res: "generateArt_at L w h sched pg d =
            (pg2\<lparr>canvas := pixels st, lastGeneratedImageData := Some (pixels st)\<rparr>,
             Inr (pixels st))"
    and p: "painted F g1 (h * w) st" and len: "length (pixels st) = w * h * 4"
    unfolding F_def g1_def ds_def by blast
  have raster: "raster = pixels st" using run res by simp
  define k where "k = y * w + x"
  have "Suc y * w \<le> h * w" using y by (intro mult_le_mono1) simp
  then have k_lt: "k < h * w" using x by (simp add: k_def)
  have pos: "k mod w = x" "k div w = y" using x by (simp_all add: k_def)
  from p k_lt obtain r g b where
    rgb: "pixel_rgb F x y (ds (snd (SimplexNoise L ds) + k)) = Inr (r, g, b)"
    and px: "pixels st ! (4 * k) = ToUint8Clamp r" "pixels st ! (4 * k + 1) = ToUint8Clamp g"
      "pixels st ! (4 * k + 2) = ToUint8Clamp b" "pixels st ! (4 * k + 3) = 255"
    unfolding painted_def using pos by (fastforce simp: F_def g1_def)
  from pixel_rgb_Inr [OF rgb] obtain r0 g0 b0 where
    idx: "js_index cs (quantize (tone + grain)) = Some (r0, g0, b0)"
    and ch: "r = Num (real_of_int r0) + grain * Num 30" "g = Num (real_of_int g0) + grain * Num 30"
      "b = Num (real_of_int b0) + grain * Num 30"
    by (auto simp: F_def tone_def grain_def k_def)
  have bytes: "\<forall>v\<in>set raster. v \<le> 255"
  proof
    fix v assume "v \<in> set raster"
    then obtain i where "i < length raster" and "v = raster ! i"
      by (auto simp: in_set_conv_nth)
    then show "v \<le> 255"
      using painted_byte_le [OF p, of i] len by (simp add: raster mult.commute)
  qed
  have clamp: "\<forall>v. (v \<le> 0 \<longrightarrow> ToUint8Clamp (Num v) = 0)
           \<and> (255 \<le> v \<longrightarrow> ToUint8Clamp (Num v) = 255)
           \<and> (0 \<le> v \<and> v \<le> 255 \<longrightarrow> \<bar>real (ToUint8Clamp (Num v)) - v\<bar> \<le> 1 / 2)"
    using ToUint8Clamp_saturates ToUint8Clamp_rounds by blast
  have at: "(y * w + x) * 4 = 4 * k" by (simp add: k_def)
  show ?thesis
    unfolding at using cs idx px ch len bytes clamp by (auto simp: raster)
qed

theorem raster_channels_clamped_witness:
  "snd (generateArt_at host_quarter 2 1 sched_wipe page0 data0)
     = Inr [254, 194, 0, 255, 254, 194, 0, 255]
   \<and> grain_of data0 (seedrandom host_quarter
        (to_string (timestamp data0) @ ''_RETRO_V7'') 3) * Num 30 = Num (- 1.125)
   \<and> ToUint8Clamp (Num 0 + Num (- 1.125)) = 0
   \<and> [254, 194, 0, 255, 254, 194, 0, 255] ! ((0 * 2 + 1) * 4 + 3) = (255 :: nat)
   \<and> length [254, 194, 0, 255, 254, 194, 0, 255 :: nat] = 2 * 1 * 4"
proof -
  have ev: "snd (generateArt_at host_quarter 2 1 sched_wipe page0 data0)
     = Inr [254, 194, 0, 255, 254, 194, 0, 255]"
    by code_simp
  have gr: "grain_of data0 (seedrandom host_quarter
        (to_string (timestamp data0) @ ''_RETRO_V7'') 3) * Num 30 = Num (- 1.125)"
    by (simp add: grain_of_def grainAmount_of_def data0_def host_quarter_def host0_def)
  have x: "(1::nat) < 2" and y: "(0::nat) < 1"
    by simp_all
  have cl: "ToUint8Clamp (Num 0 + Num (- 1.125)) = 0"
    by (simp add: ToUint8Clamp_def)
  have "[254, 194, 0, 255, 254, 194, 0, 255] ! ((0 * 2 + 1) * 4 + 3) = (255 :: nat)
      \<and> length [254, 194, 0, 255, 254, 194, 0, 255 :: nat] = 2 * 1 * 4"
    using raster_channels_clamped [OF ev x y] by blast
  with ev gr cl show ?thesis by blast
qed

end
